theory Spec2Isabelle
  imports
    Main
    "HOL-Library.Multiset"
    "HOL-Library.Char_ord"
    "HOL-Library.List_Lexorder"
begin

section \<open>Multi-site hosting: the Site model of wagtail/models/sites.py\<close>

text \<open>
  A shallow embedding of the site resolver, the root-path cache, the default-site
  validation and the pluggable site-user model lookup of
  \<^verbatim>\<open>wagtail/models/sites.py\<close>.

  Conventions of the embedding:
  \<^item> the \<^verbatim>\<open>Site\<close> table is a list of rows, in the order the database returns
    them when no ordering is asked for;
  \<^item> an exception is the \<open>Inl\<close> side of a sum, a normal return the \<open>Inr\<close> side;
  \<^item> character-field comparison is equality of strings, and the ordering of strings
    is the lexicographic order of their characters;
  \<^item> \<^verbatim>\<open>gettext_lazy\<close> is the identity (no translation catalogue is active).
\<close>

subsection \<open>Data model\<close>

text \<open>
  The part of a \<^verbatim>\<open>Page\<close> row that the module reads through
  \<^verbatim>\<open>site.root_page\<close>: its \<^verbatim>\<open>url_path\<close> and the
  \<^verbatim>\<open>language_code\<close> of its locale.
\<close>

record page =
  url_path :: string
  locale_language_code :: string

text \<open>
  A \<^verbatim>\<open>Site\<close> instance. \<open>pk\<close> is the automatic \<^verbatim>\<open>id\<close> field:
  \<open>None\<close> on an instance that was never saved, \<open>Some k\<close> on a row of the table.
\<close>

record site =
  pk :: "int option"
  hostname :: string
  port :: int
  site_name :: string
  root_page :: page
  is_default_site :: bool

text \<open>
  The exceptions the module raises or lets through. A \<^verbatim>\<open>ValidationError\<close>
  carries its dictionary of field name to messages.
\<close>

datatype error =
    DoesNotExist
  | MultipleObjectsReturned
  | ValidationError "(string \<times> string list) list"
  | ImproperlyConfigured string

subsection \<open>The site resolver: \<^verbatim>\<open>get_site_for_hostname\<close>\<close>

definition MATCH_HOSTNAME_PORT :: nat where
  "MATCH_HOSTNAME_PORT = 0"

definition MATCH_HOSTNAME_DEFAULT :: nat where
  "MATCH_HOSTNAME_DEFAULT = 1"

definition MATCH_DEFAULT :: nat where
  "MATCH_DEFAULT = 2"

definition MATCH_HOSTNAME :: nat where
  "MATCH_HOSTNAME = 3"

text \<open>
  The \<^verbatim>\<open>Case(When ..., When ..., When ..., default=...)\<close> expression: the first
  condition that holds decides the annotation.
\<close>

definition match_annotation :: "string \<Rightarrow> int \<Rightarrow> site \<Rightarrow> nat" where
  "match_annotation h p s =
     (if hostname s = h \<and> port s = p then MATCH_HOSTNAME_PORT
      else if hostname s = h \<and> is_default_site s then MATCH_HOSTNAME_DEFAULT
      else if is_default_site s then MATCH_DEFAULT
      else MATCH_HOSTNAME)"

text \<open>
  The query of lines 31 to 53: annotate every row, keep the rows whose hostname is the
  requested one or that are flagged default, order by the annotation. Each element is
  the annotation paired with the row. \<open>sort_key\<close> is a stable insertion sort, so rows
  of equal annotation stay in table order.
\<close>

definition sites_query :: "site list \<Rightarrow> string \<Rightarrow> int \<Rightarrow> (nat \<times> site) list" where
  "sites_query tbl h p =
     sort_key fst
       (filter (\<lambda>(m, s). hostname s = h \<or> is_default_site s)
         (map (\<lambda>s. (match_annotation h p s, s)) tbl))"

definition get_site_for_hostname :: "site list \<Rightarrow> string \<Rightarrow> int \<Rightarrow> error + site" where
  "get_site_for_hostname tbl h p =
     (let sites = sites_query tbl h p in
      if sites \<noteq> [] then
        if length sites = 1
            \<or> fst (sites ! 0) \<in> {MATCH_HOSTNAME_PORT, MATCH_HOSTNAME_DEFAULT}
        then Inr (snd (sites ! 0))
        else if fst (sites ! 0) = MATCH_DEFAULT
        then Inr (snd (sites ! (if length sites = 2 then 1 else 0)))
        else Inl DoesNotExist
      else Inl DoesNotExist)"

text \<open>
  The annotation of the best-ranked candidate, \<^verbatim>\<open>sites[0].match\<close>, when there is
  a candidate at all.
\<close>

definition best_match :: "site list \<Rightarrow> string \<Rightarrow> int \<Rightarrow> nat option" where
  "best_match tbl h p =
     (case sites_query tbl h p of [] \<Rightarrow> None | (m, s) # rest \<Rightarrow> Some m)"

text \<open>
  \<^verbatim>\<open>Meta.unique_together = ("hostname", "port")\<close>: no two rows of the table share
  both hostname and port.
\<close>

definition natural_key :: "site \<Rightarrow> string \<times> int" where
  "natural_key s = (hostname s, port s)"

definition unique_together :: "site list \<Rightarrow> bool" where
  "unique_together tbl \<longleftrightarrow> distinct (map natural_key tbl)"

subsection \<open>The base URL: \<^verbatim>\<open>Site.root_url\<close>\<close>

text \<open>The conversion \<^verbatim>\<open>%d\<close> of an integer: decimal digits, a minus sign when negative.\<close>

definition digit_char :: "nat \<Rightarrow> char" where
  "digit_char d = ''0123456789'' ! d"

function str_nat :: "nat \<Rightarrow> string" where
  "str_nat n = (if n < 10 then [digit_char n] else str_nat (n div 10) @ [digit_char (n mod 10)])"
  by pat_completeness auto
termination
  by (relation "measure (\<lambda>n. n)") auto

declare str_nat.simps [simp del]

definition str_int :: "int \<Rightarrow> string" where
  "str_int i = (if i < 0 then ''-'' @ str_nat (nat (- i)) else str_nat (nat i))"

definition root_url :: "site \<Rightarrow> string" where
  "root_url self =
     (if port self = 80 then ''http://'' @ hostname self
      else if port self = 443 then ''https://'' @ hostname self
      else ''http://'' @ hostname self @ '':'' @ str_int (port self))"

subsection \<open>Finding the site of a request: \<^verbatim>\<open>Site.find_for_request\<close>\<close>

text \<open>
  The request object as the module uses it: the results of \<^verbatim>\<open>get_host()\<close> and
  \<^verbatim>\<open>get_port()\<close>, and the attribute \<^verbatim>\<open>_wagtail_site\<close>, which is absent
  (\<open>None\<close>) until \<^verbatim>\<open>setattr\<close> stores a site or \<^verbatim>\<open>None\<close> in it.
\<close>

record request =
  get_host :: string
  get_port :: int
  wagtail_site :: "site option option"

text \<open>
  A cached record: the named tuple \<^verbatim>\<open>SiteRootPath\<close> of four fields, or the tuple
  of three fields (site id, root path, root URL) that older versions cached.
\<close>

datatype site_record =
    LegacySiteRootPath "int option" string string
  | SiteRootPath (site_id: "int option") (root_path: string) (root_url_of: string)
      (language_code: string)

fun len_record :: "site_record \<Rightarrow> nat" where
  "len_record (LegacySiteRootPath i p u) = 3"
| "len_record (SiteRootPath i p u l) = 4"

text \<open>
  The tables and stores the module reads and writes: the rows of \<^verbatim>\<open>Site\<close>, the
  number of queries made on that table so far, and the cache store, which keeps for
  each key the value and the timeout it was set with.
\<close>

record env =
  Site_objects :: "site list"
  site_queries :: nat
  cache :: "string \<rightharpoonup> (site_record list \<times> nat)"

definition cache_get :: "(string \<rightharpoonup> ('v \<times> nat)) \<Rightarrow> string \<Rightarrow> 'v option" where
  "cache_get c k = map_option fst (c k)"

definition cache_set ::
  "(string \<rightharpoonup> ('v \<times> nat)) \<Rightarrow> string \<Rightarrow> 'v \<Rightarrow> nat \<Rightarrow> (string \<rightharpoonup> ('v \<times> nat))" where
  "cache_set c k v timeout = c(k \<mapsto> (v, timeout))"

definition cache_delete :: "(string \<rightharpoonup> ('v \<times> nat)) \<Rightarrow> string \<Rightarrow> (string \<rightharpoonup> ('v \<times> nat))" where
  "cache_delete c k = c(k := None)"

text \<open>
  \<^verbatim>\<open>_find_for_request\<close>: \<^verbatim>\<open>Site.DoesNotExist\<close> is caught and becomes
  \<^verbatim>\<open>None\<close>. \<^verbatim>\<open>split_domain_port\<close> is a function of the framework and a
  parameter here.
\<close>

definition find_for_request_inner ::
  "(string \<Rightarrow> string \<times> string) \<Rightarrow> env \<Rightarrow> request \<Rightarrow> site option \<times> env" where
  "find_for_request_inner split_domain_port e req =
     (let hostname = fst (split_domain_port (get_host req));
          port = get_port req;
          e' = e\<lparr>site_queries := site_queries e + 1\<rparr>
      in case get_site_for_hostname (Site_objects e) hostname port of
           Inr site \<Rightarrow> (Some site, e')
         | Inl err \<Rightarrow> (None, e'))"

text \<open>
  \<^verbatim>\<open>find_for_request\<close> returns the site (or \<^verbatim>\<open>None\<close>), the request object
  after the call, and the environment after the call.
\<close>

definition find_for_request ::
  "(string \<Rightarrow> string \<times> string) \<Rightarrow> env \<Rightarrow> request option
     \<Rightarrow> site option \<times> request option \<times> env" where
  "find_for_request split_domain_port e request =
     (case request of
        None \<Rightarrow> (None, None, e)
      | Some req \<Rightarrow>
          (case wagtail_site req of
             None \<Rightarrow>
               (let (site, e') = find_for_request_inner split_domain_port e req
                in (site, Some (req\<lparr>wagtail_site := Some site\<rparr>), e'))
           | Some cached \<Rightarrow> (cached, Some req, e)))"

subsection \<open>Default-site validation: \<^verbatim>\<open>Site.clean_fields\<close>\<close>

text \<open>\<^verbatim>\<open>Site.objects.get(is_default_site=True)\<close>.\<close>

definition objects_get_default :: "site list \<Rightarrow> error + site" where
  "objects_get_default tbl =
     (case filter is_default_site tbl of
        [] \<Rightarrow> Inl DoesNotExist
      | [d] \<Rightarrow> Inr d
      | d # d' # ds \<Rightarrow> Inl MultipleObjectsReturned)"

definition default_site_message :: "string \<Rightarrow> string" where
  "default_site_message h =
     h @ '' is already configured as the default site.''
       @ '' You must unset that before you can save this site as default.''"

text \<open>
  \<^verbatim>\<open>super().clean_fields(exclude)\<close> is the field validation of the framework's
  base class, a parameter here: it returns the error it raises, if any.
\<close>

definition clean_fields ::
  "(site \<Rightarrow> string list option \<Rightarrow> error option) \<Rightarrow> site list \<Rightarrow> site
     \<Rightarrow> string list option \<Rightarrow> error + unit" where
  "clean_fields super_clean_fields tbl self exclude =
     (case super_clean_fields self exclude of
        Some err \<Rightarrow> Inl err
      | None \<Rightarrow>
          (case objects_get_default tbl of
             Inl DoesNotExist \<Rightarrow> Inr ()
           | Inl err \<Rightarrow> Inl err
           | Inr default_site \<Rightarrow>
               if is_default_site self \<and> pk self \<noteq> pk default_site
               then Inl (ValidationError
                      [(''is_default_site'',
                        [default_site_message (hostname default_site)])])
               else Inr ()))"

subsection \<open>The root-path cache: \<^verbatim>\<open>Site.get_site_root_paths\<close>\<close>

text \<open>
  \<^verbatim>\<open>order_by("-root_page__url_path", "-is_default_site", "hostname")\<close>: a row
  \<open>a\<close> may come before a row \<open>b\<close> when its root page's path is greater, or the paths
  are equal and it is the default one of the two, or these are equal too and its
  hostname is less or equal.
\<close>

definition root_paths_order :: "site \<Rightarrow> site \<Rightarrow> bool" where
  "root_paths_order a b \<longleftrightarrow>
     url_path (root_page b) < url_path (root_page a)
     \<or> (url_path (root_page a) = url_path (root_page b)
        \<and> (is_default_site b < is_default_site a
           \<or> (is_default_site a = is_default_site b \<and> hostname a \<le> hostname b)))"

fun insort_by :: "('a \<Rightarrow> 'a \<Rightarrow> bool) \<Rightarrow> 'a \<Rightarrow> 'a list \<Rightarrow> 'a list" where
  "insort_by le x [] = [x]"
| "insort_by le x (y # ys) = (if le x y then x # y # ys else y # insort_by le x ys)"

definition order_by :: "('a \<Rightarrow> 'a \<Rightarrow> bool) \<Rightarrow> 'a list \<Rightarrow> 'a list" where
  "order_by le xs = foldr (insort_by le) xs []"

text \<open>
  The entries one site contributes. With \<^verbatim>\<open>WAGTAIL_I18N_ENABLED\<close>, one entry for
  each page of \<^verbatim>\<open>site.root_page.get_translations(inclusive=True)\<close>, a query of the
  page tree that is a parameter here; without, the entry of the root page itself.
\<close>

definition site_entries :: "bool \<Rightarrow> (page \<Rightarrow> page list) \<Rightarrow> site \<Rightarrow> site_record list" where
  "site_entries i18n_enabled get_translations site =
     (if i18n_enabled
      then map (\<lambda>rp. SiteRootPath (pk site) (url_path rp) (root_url site)
                  (locale_language_code rp))
             (get_translations (root_page site))
      else [SiteRootPath (pk site) (url_path (root_page site)) (root_url site)
              (locale_language_code (root_page site))])"

text \<open>The \<^verbatim>\<open>for site in ...\<close> loop, extending \<^verbatim>\<open>result\<close> site by site.\<close>

fun root_paths_loop ::
  "bool \<Rightarrow> (page \<Rightarrow> page list) \<Rightarrow> site list \<Rightarrow> site_record list \<Rightarrow> site_record list" where
  "root_paths_loop i18n_enabled get_translations [] result = result"
| "root_paths_loop i18n_enabled get_translations (site # rest) result =
     root_paths_loop i18n_enabled get_translations rest
       (result @ site_entries i18n_enabled get_translations site)"

definition compute_site_root_paths ::
  "bool \<Rightarrow> (page \<Rightarrow> page list) \<Rightarrow> site list \<Rightarrow> site_record list" where
  "compute_site_root_paths i18n_enabled get_translations tbl =
     root_paths_loop i18n_enabled get_translations (order_by root_paths_order tbl) []"

definition cache_key :: string where
  "cache_key = ''wagtail_site_root_paths''"

text \<open>
  The test of line 226: nothing cached under the key, or a cached record of length 3.
\<close>

definition cache_unusable :: "site_record list option \<Rightarrow> bool" where
  "cache_unusable result \<longleftrightarrow>
     (case result of
        None \<Rightarrow> True
      | Some rs \<Rightarrow> list_ex (\<lambda>site_record. len_record site_record = 3) rs)"

definition get_site_root_paths ::
  "bool \<Rightarrow> (page \<Rightarrow> page list) \<Rightarrow> env \<Rightarrow> site_record list \<times> env" where
  "get_site_root_paths i18n_enabled get_translations e =
     (let result = cache_get (cache e) cache_key in
      if cache_unusable result then
        (let result' = compute_site_root_paths i18n_enabled get_translations (Site_objects e)
         in (result',
             e\<lparr>site_queries := site_queries e + 1,
               cache := cache_set (cache e) cache_key result' 3600\<rparr>))
      else (the result, e))"

text \<open>
  Modelled from the spec: the handlers that run when a \<^verbatim>\<open>Site\<close> row is created,
  updated or deleted are not in this module; the three definitions that follow stand
  for them. \<open>fresh_pk\<close> is the primary key the database gives a new row: one that no
  row of the table has.
\<close>

definition fresh_pk :: "site list \<Rightarrow> int" where
  "fresh_pk tbl = fold (\<lambda>s k. case pk s of None \<Rightarrow> k | Some j \<Rightarrow> max k (j + 1)) tbl 1"

text \<open>
  Modelled from the spec: saving a site (its handler is not in this module). The spec
  says that any create or update of a tenant record evicts the root-path cache entry
  immediately. An instance without primary key is appended under a fresh one, an
  instance with the primary key of a row replaces that row; the cache key is deleted.
\<close>

definition save_site :: "site \<Rightarrow> env \<Rightarrow> env" where
  "save_site s e =
     e\<lparr>Site_objects :=
         (case pk s of
            None \<Rightarrow> Site_objects e @ [s\<lparr>pk := Some (fresh_pk (Site_objects e))\<rparr>]
          | Some k \<Rightarrow>
              if list_ex (\<lambda>r. pk r = Some k) (Site_objects e)
              then map (\<lambda>r. if pk r = Some k then s else r) (Site_objects e)
              else Site_objects e @ [s]),
       cache := cache_delete (cache e) cache_key\<rparr>"

text \<open>
  Modelled from the spec: deleting a site (its handler is not in this module). The spec
  says that any delete of a tenant record evicts the root-path cache entry immediately.
  The rows with the instance's primary key are removed; the cache key is deleted.
\<close>

definition delete_site :: "site \<Rightarrow> env \<Rightarrow> env" where
  "delete_site s e =
     e\<lparr>Site_objects := filter (\<lambda>r. pk r \<noteq> pk s) (Site_objects e),
       cache := cache_delete (cache e) cache_key\<rparr>"

subsection \<open>The pluggable site-user model: \<^verbatim>\<open>get_site_user_model\<close>\<close>

text \<open>\<^verbatim>\<open>str.split(".")\<close>: the pieces between the dots, at least one piece.\<close>

fun split_dot :: "string \<Rightarrow> string list" where
  "split_dot [] = [[]]"
| "split_dot (c # cs) =
     (if c = CHR ''.'' then [] # split_dot cs
      else (case split_dot cs of [] \<Rightarrow> [[c]] | w # ws \<Rightarrow> (c # w) # ws))"

text \<open>
  The exceptions \<^verbatim>\<open>apps.get_model\<close> and the settings object raise, which
  \<^verbatim>\<open>get_site_user_model\<close> catches.
\<close>

datatype lookup_exception = ValueError | LookupError | AttributeError

text \<open>
  \<^verbatim>\<open>apps.get_model(name, require_ready=False)\<close> of the framework: the name is split
  at its dots into exactly an app label and a model name (anything else is a
  \<^verbatim>\<open>ValueError\<close>), and the pair is looked up among the installed models, a
  parameter here (a miss is a \<^verbatim>\<open>LookupError\<close>).
\<close>

definition apps_get_model ::
  "(string \<Rightarrow> string \<Rightarrow> 'm option) \<Rightarrow> string \<Rightarrow> lookup_exception + 'm" where
  "apps_get_model installed name =
     (case split_dot name of
        [app_label, model_name] \<Rightarrow>
          (case installed app_label model_name of
             None \<Rightarrow> Inl LookupError
           | Some m \<Rightarrow> Inr m)
      | parts \<Rightarrow> Inl ValueError)"

text \<open>
  Reading \<^verbatim>\<open>settings.SITE_USER_MODEL\<close>: an \<^verbatim>\<open>AttributeError\<close> when the setting
  is absent.
\<close>

definition settings_SITE_USER_MODEL :: "string option \<Rightarrow> lookup_exception + string" where
  "settings_SITE_USER_MODEL setting =
     (case setting of None \<Rightarrow> Inl AttributeError | Some name \<Rightarrow> Inr name)"

definition msg_form :: string where
  "msg_form = ''settings must be of the form '' @ [CHR 0x27] @ ''app_label.model_name''
     @ [CHR 0x27]"

definition msg_not_installed :: "string \<Rightarrow> string" where
  "msg_not_installed name =
     ''settings refers to model '' @ [CHR 0x27] @ name @ [CHR 0x27]
       @ '' that has not been installed''"

definition msg_configure :: string where
  "msg_configure =
     ''Please configure settings.SITE_USER_MODEL ''
       @ ''            that should subclass the AbstractSiteUser''"

definition get_site_user_model ::
  "string option \<Rightarrow> (string \<Rightarrow> string \<Rightarrow> 'm option) \<Rightarrow> error + 'm" where
  "get_site_user_model setting installed =
     (case settings_SITE_USER_MODEL setting of
        Inl exc \<Rightarrow> Inl (ImproperlyConfigured msg_configure)
      | Inr name \<Rightarrow>
          (case apps_get_model installed name of
             Inr m \<Rightarrow> Inr m
           | Inl ValueError \<Rightarrow> Inl (ImproperlyConfigured msg_form)
           | Inl LookupError \<Rightarrow> Inl (ImproperlyConfigured (msg_not_installed name))
           | Inl AttributeError \<Rightarrow> Inl (ImproperlyConfigured msg_configure)))"

text \<open>
  The module's global \<^verbatim>\<open>SiteUser\<close>. Importing the module runs its top-level
  statements: line 19 binds the global to \<^verbatim>\<open>None\<close>, the class and function
  definitions that follow do not read \<^verbatim>\<open>settings.SITE_USER_MODEL\<close>.
\<close>

record 'm module_globals =
  SiteUser :: "'m option"

definition import_module ::
  "string option \<Rightarrow> (string \<Rightarrow> string \<Rightarrow> 'm option) \<Rightarrow> error + 'm module_globals" where
  "import_module setting installed = Inr \<lparr>SiteUser = None\<rparr>"

text \<open>
  \<^verbatim>\<open>AbstractSiteUser.find_for_request\<close>: line 370 binds the global to the model class
  on the first call. The rest of the body (lines 372 to 388) works on the session and
  on the user of the request with a helper of another module; it is the parameter
  \<open>body\<close>, given the model class and the request.
\<close>

definition site_user_find_for_request ::
  "string option \<Rightarrow> (string \<Rightarrow> string \<Rightarrow> 'm option) \<Rightarrow> ('m \<Rightarrow> 'rq \<Rightarrow> error + 'su)
     \<Rightarrow> 'm module_globals \<Rightarrow> 'rq \<Rightarrow> (error + 'su) \<times> 'm module_globals" where
  "site_user_find_for_request setting installed body g rq =
     (case SiteUser g of
        Some m \<Rightarrow> (body m rq, g)
      | None \<Rightarrow>
          (case get_site_user_model setting installed of
             Inl err \<Rightarrow> (Inl err, g)
           | Inr m \<Rightarrow> (body m rq, g\<lparr>SiteUser := Some m\<rparr>)))"

subsection \<open>Example rows\<close>

text \<open>
  Three rows used to instantiate the theorems below: two sites of one hostname on
  different ports, and a default site of another hostname.
\<close>

definition ex_home :: page where
  "ex_home = \<lparr>url_path = ''/home/'', locale_language_code = ''en''\<rparr>"

definition ex_site_a :: site where
  "ex_site_a = \<lparr>pk = Some 1, hostname = ''example.com'', port = 80, site_name = ''A'',
     root_page = ex_home, is_default_site = False\<rparr>"

definition ex_site_b :: site where
  "ex_site_b = \<lparr>pk = Some 2, hostname = ''example.com'', port = 8000, site_name = ''B'',
     root_page = \<lparr>url_path = ''/home/b/'', locale_language_code = ''fr''\<rparr>,
     is_default_site = False\<rparr>"

definition ex_site_d :: site where
  "ex_site_d = \<lparr>pk = Some 3, hostname = ''other.com'', port = 443, site_name = ''D'',
     root_page = ex_home, is_default_site = True\<rparr>"

text \<open>
  A configuration for the site-user model lookup: no model is installed, and the rest
  of \<^verbatim>\<open>AbstractSiteUser.find_for_request\<close> returns at once.
\<close>

definition ex_installed :: "string \<Rightarrow> string \<Rightarrow> unit option" where
  "ex_installed app_label model_name = None"

definition ex_body :: "unit \<Rightarrow> unit \<Rightarrow> error + unit" where
  "ex_body m rq = Inr ()"

text \<open>
  A French translation of the home page, a site whose root page lies below that
  translation, and the translations of a page: the home page has the French one, every
  other page has only itself.
\<close>

definition ex_home_fr :: page where
  "ex_home_fr = \<lparr>url_path = ''/home-fr/'', locale_language_code = ''fr''\<rparr>"

definition ex_site_blog :: site where
  "ex_site_blog = \<lparr>pk = Some 4, hostname = ''blog.example.com'', port = 80,
     site_name = ''Blog'',
     root_page = \<lparr>url_path = ''/home-fr/blog/'', locale_language_code = ''fr''\<rparr>,
     is_default_site = False\<rparr>"

definition ex_translations :: "page \<Rightarrow> page list" where
  "ex_translations p = (if p = ex_home then [ex_home, ex_home_fr] else [p])"

text \<open>
  An environment whose cache holds the root paths computed from its two rows.
\<close>

definition ex_env :: env where
  "ex_env = \<lparr>Site_objects = [ex_site_a, ex_site_d], site_queries = 1,
     cache = [cache_key \<mapsto>
       ([SiteRootPath (Some 3) ''/home/'' ''https://other.com'' ''en'',
         SiteRootPath (Some 1) ''/home/'' ''http://example.com'' ''en''], 3600)]\<rparr>"

section \<open>Properties\<close>

subsection \<open>The candidates of the resolver\<close>

lemma match_annotation_cases:
  "match_annotation h p s = MATCH_HOSTNAME_PORT \<longleftrightarrow> hostname s = h \<and> port s = p"
  "match_annotation h p s = MATCH_HOSTNAME_DEFAULT \<longleftrightarrow>
     hostname s = h \<and> port s \<noteq> p \<and> is_default_site s"
  "match_annotation h p s = MATCH_DEFAULT \<longleftrightarrow> hostname s \<noteq> h \<and> is_default_site s"
  "match_annotation h p s = MATCH_HOSTNAME \<longleftrightarrow>
     \<not> is_default_site s \<and> \<not> (hostname s = h \<and> port s = p)"
  by (auto simp: match_annotation_def MATCH_HOSTNAME_PORT_def MATCH_HOSTNAME_DEFAULT_def
      MATCH_DEFAULT_def MATCH_HOSTNAME_def)

lemma match_annotation_le: "match_annotation h p s \<le> MATCH_HOSTNAME"
  by (simp add: match_annotation_def MATCH_HOSTNAME_PORT_def MATCH_HOSTNAME_DEFAULT_def
      MATCH_DEFAULT_def MATCH_HOSTNAME_def)

lemma sites_query_sorted: "sorted (map fst (sites_query tbl h p))"
  by (simp add: sites_query_def)

lemma sites_query_alt:
  "sites_query tbl h p =
     sort_key fst (map (\<lambda>s. (match_annotation h p s, s))
       (filter (\<lambda>s. hostname s = h \<or> is_default_site s) tbl))"
  unfolding sites_query_def filter_map comp_def by simp

lemma sites_query_set:
  "set (sites_query tbl h p) =
     (\<lambda>s. (match_annotation h p s, s)) ` {s \<in> set tbl. hostname s = h \<or> is_default_site s}"
  unfolding sites_query_alt by simp

lemma sites_query_rows:
  "mset (map snd (sites_query tbl h p)) =
     mset (filter (\<lambda>s. hostname s = h \<or> is_default_site s) tbl)"
proof -
  have "mset (map snd (sites_query tbl h p)) =
          image_mset snd (mset (sites_query tbl h p))"
    by simp
  also have "\<dots> = image_mset snd (mset (map (\<lambda>s. (match_annotation h p s, s))
       (filter (\<lambda>s. hostname s = h \<or> is_default_site s) tbl)))"
    unfolding sites_query_alt by simp
  also have "\<dots> = mset (filter (\<lambda>s. hostname s = h \<or> is_default_site s) tbl)"
    by (simp add: image_mset.compositionality comp_def)
  finally show ?thesis .
qed

lemma sites_query_length:
  "length (sites_query tbl h p) =
     length (filter (\<lambda>s. hostname s = h \<or> is_default_site s) tbl)"
  unfolding sites_query_alt by simp

lemma sites_query_empty:
  "sites_query tbl h p = [] \<longleftrightarrow> (\<forall>s \<in> set tbl. hostname s \<noteq> h \<and> \<not> is_default_site s)"
proof -
  have "sites_query tbl h p = [] \<longleftrightarrow> set (sites_query tbl h p) = {}"
    by simp
  also have "\<dots> \<longleftrightarrow> (\<forall>s \<in> set tbl. hostname s \<noteq> h \<and> \<not> is_default_site s)"
    unfolding sites_query_set by blast
  finally show ?thesis .
qed

lemma sites_query_head_least:
  assumes "x \<in> set (sites_query tbl h p)"
  shows "fst (sites_query tbl h p ! 0) \<le> fst x"
proof -
  from assms obtain i where i: "i < length (sites_query tbl h p)" "sites_query tbl h p ! i = x"
    by (auto simp: in_set_conv_nth)
  have "map fst (sites_query tbl h p) ! 0 \<le> map fst (sites_query tbl h p) ! i"
    using sites_query_sorted i(1) by (intro sorted_nth_mono) auto
  moreover have "0 < length (sites_query tbl h p)"
    using i(1) by linarith
  ultimately show ?thesis
    using i by (simp add: nth_map)
qed

lemma sites_query_head:
  assumes "sites_query tbl h p \<noteq> []"
  obtains s where "sites_query tbl h p ! 0 = (match_annotation h p s, s)" "s \<in> set tbl"
    "hostname s = h \<or> is_default_site s"
proof -
  have "sites_query tbl h p ! 0 \<in> set (sites_query tbl h p)"
    using assms by simp
  then show ?thesis
    using that by (auto simp: sites_query_set)
qed

lemma filter_disj_mset:
  "\<forall>x \<in> set xs. \<not> (P x \<and> Q x) \<Longrightarrow>
     mset (filter (\<lambda>x. P x \<or> Q x) xs) = mset (filter P xs) + mset (filter Q xs)"
  by (induction xs) auto

lemma unique_together_eq:
  assumes "unique_together tbl" "s \<in> set tbl" "t \<in> set tbl"
    and "hostname s = hostname t" "port s = port t"
  shows "s = t"
proof -
  have "inj_on natural_key (set tbl)"
    using assms(1) by (simp add: unique_together_def distinct_map)
  moreover have "natural_key s = natural_key t"
    using assms(4,5) by (simp add: natural_key_def)
  ultimately show ?thesis
    using assms(2,3) by (meson inj_onD)
qed

lemma exact_match_returned:
  assumes "unique_together tbl" "T \<in> set tbl"
  shows "get_site_for_hostname tbl (hostname T) (port T) = Inr T"
proof -
  let ?q = "sites_query tbl (hostname T) (port T)"
  have "match_annotation (hostname T) (port T) T = MATCH_HOSTNAME_PORT"
    by (simp add: match_annotation_cases(1))
  moreover have "(match_annotation (hostname T) (port T) T, T) \<in> set ?q"
    unfolding sites_query_set using assms(2) by blast
  ultimately have mem: "(MATCH_HOSTNAME_PORT, T) \<in> set ?q"
    by simp
  then have ne: "?q \<noteq> []" by auto
  have "fst (?q ! 0) \<le> MATCH_HOSTNAME_PORT"
    using sites_query_head_least [OF mem] by simp
  then have zero: "fst (?q ! 0) = MATCH_HOSTNAME_PORT"
    by (simp add: MATCH_HOSTNAME_PORT_def)
  from ne obtain s where s: "?q ! 0 = (match_annotation (hostname T) (port T) s, s)"
    "s \<in> set tbl"
    by (rule sites_query_head)
  with zero have "hostname s = hostname T \<and> port s = port T"
    by (simp add: match_annotation_cases)
  then have "s = T"
    using unique_together_eq [OF assms(1) s(2) assms(2)] by simp
  then have snd0: "snd (?q ! 0) = T"
    using s(1) by simp
  show ?thesis
    unfolding get_site_for_hostname_def Let_def
    by (simp only: ne zero snd0 not_False_eq_True if_True insertI1 simp_thms)
qed

subsection \<open>The resolver\<close>

lemma other_candidates_ranked_lower:
  assumes "unique_together tbl" "T \<in> set tbl"
    and "c \<in> set (sites_query tbl (hostname T) (port T))" "snd c \<noteq> T"
  shows "MATCH_HOSTNAME_PORT < fst c"
proof -
  from assms(3) obtain s where s: "c = (match_annotation (hostname T) (port T) s, s)"
    "s \<in> set tbl"
    unfolding sites_query_set by blast
  have "match_annotation (hostname T) (port T) s \<noteq> MATCH_HOSTNAME_PORT"
  proof
    assume "match_annotation (hostname T) (port T) s = MATCH_HOSTNAME_PORT"
    then have "hostname s = hostname T \<and> port s = port T"
      by (simp add: match_annotation_cases(1))
    then have "s = T"
      using unique_together_eq [OF assms(1) s(2) assms(2)] by simp
    with assms(4) s(1) show False by simp
  qed
  with s(1) show ?thesis
    by (simp add: MATCH_HOSTNAME_PORT_def)
qed

text \<open>
  Claim C6. In a table that respects \<^verbatim>\<open>unique_together\<close>, two distinct sites
  \<open>T1\<close> and \<open>T2\<close> of one hostname and different ports are each returned for their
  own port. More generally the row whose hostname and port are the requested ones is
  returned, and every other candidate of the query carries an annotation greater than
  \<open>MATCH_HOSTNAME_PORT\<close>.
\<close>

theorem exact_match_outranks:
  assumes "unique_together tbl" "T1 \<in> set tbl" "T2 \<in> set tbl" "T1 \<noteq> T2"
    and "hostname T1 = hostname T2" "port T1 \<noteq> port T2"
  shows "get_site_for_hostname tbl (hostname T1) (port T1) = Inr T1
       \<and> get_site_for_hostname tbl (hostname T1) (port T2) = Inr T2
       \<and> (\<forall>T \<in> set tbl.
            get_site_for_hostname tbl (hostname T) (port T) = Inr T
            \<and> (\<forall>c \<in> set (sites_query tbl (hostname T) (port T)).
                 snd c \<noteq> T \<longrightarrow> MATCH_HOSTNAME_PORT < fst c))"
proof (intro conjI ballI impI)
  show "get_site_for_hostname tbl (hostname T1) (port T1) = Inr T1"
    using assms(1,2) by (rule exact_match_returned)
  show "get_site_for_hostname tbl (hostname T1) (port T2) = Inr T2"
    using exact_match_returned [OF assms(1,3)] assms(5) by simp
next
  fix T assume "T \<in> set tbl"
  then show "get_site_for_hostname tbl (hostname T) (port T) = Inr T"
    using assms(1) exact_match_returned by blast
next
  fix T c
  assume "T \<in> set tbl" "c \<in> set (sites_query tbl (hostname T) (port T))" "snd c \<noteq> T"
  then show "MATCH_HOSTNAME_PORT < fst c"
    using assms(1) other_candidates_ranked_lower by blast
qed

theorem exact_match_outranks_witness:
  "unique_together [ex_site_a, ex_site_b, ex_site_d]
   \<and> ex_site_a \<noteq> ex_site_b \<and> hostname ex_site_a = hostname ex_site_b
   \<and> port ex_site_a \<noteq> port ex_site_b
   \<and> get_site_for_hostname [ex_site_a, ex_site_b, ex_site_d] ''example.com'' 80
       = Inr ex_site_a
   \<and> get_site_for_hostname [ex_site_a, ex_site_b, ex_site_d] ''example.com'' 8000
       = Inr ex_site_b"
proof -
  have u: "unique_together [ex_site_a, ex_site_b, ex_site_d]"
    by (simp add: unique_together_def natural_key_def ex_site_a_def ex_site_b_def
        ex_site_d_def)
  have d: "ex_site_a \<noteq> ex_site_b" "hostname ex_site_a = hostname ex_site_b"
    "port ex_site_a \<noteq> port ex_site_b"
    by (simp_all add: ex_site_a_def ex_site_b_def)
  have "get_site_for_hostname [ex_site_a, ex_site_b, ex_site_d] (hostname ex_site_a)
          (port ex_site_a) = Inr ex_site_a
      \<and> get_site_for_hostname [ex_site_a, ex_site_b, ex_site_d] (hostname ex_site_a)
          (port ex_site_b) = Inr ex_site_b"
    using exact_match_outranks [OF u _ _ d] by simp
  moreover have "hostname ex_site_a = ''example.com''" "port ex_site_a = 80"
    "port ex_site_b = 8000"
    by (simp_all add: ex_site_a_def ex_site_b_def)
  ultimately show ?thesis
    using u d by simp
qed

subsection \<open>The base URL\<close>



subsection \<open>The site of a request\<close>

text \<open>
  Claim C10. Called with \<^verbatim>\<open>None\<close>, \<^verbatim>\<open>Site.find_for_request\<close> returns
  \<^verbatim>\<open>None\<close>: no exception is raised, the environment is returned as it was (the
  count of queries on the table included), whatever the rows of the table are.
\<close>

theorem find_for_request_None:
  "find_for_request split_domain_port e None = (None, None, e)"
  by (simp add: find_for_request_def)

subsection \<open>The root-path cache\<close>

lemma root_paths_loop_concat:
  "root_paths_loop i18n tr ss result = result @ concat (map (site_entries i18n tr) ss)"
  by (induction ss arbitrary: result) simp_all

lemma compute_site_root_paths_concat:
  "compute_site_root_paths i18n tr tbl =
     concat (map (site_entries i18n tr) (order_by root_paths_order tbl))"
  by (simp add: compute_site_root_paths_def root_paths_loop_concat)

lemma site_entries_len: "r \<in> set (site_entries i18n tr s) \<Longrightarrow> len_record r = 4"
  by (auto simp: site_entries_def split: if_splits)

lemma compute_site_root_paths_len:
  "r \<in> set (compute_site_root_paths i18n tr tbl) \<Longrightarrow> len_record r = 4"
  by (auto simp: compute_site_root_paths_concat dest: site_entries_len)

lemma compute_site_root_paths_usable:
  "\<not> cache_unusable (Some (compute_site_root_paths i18n tr tbl))"
  by (auto simp: cache_unusable_def list_ex_iff dest: compute_site_root_paths_len)

lemma get_site_root_paths_recompute:
  assumes "cache_unusable (cache_get (cache e) cache_key)"
  shows "get_site_root_paths i18n tr e =
     (compute_site_root_paths i18n tr (Site_objects e),
      e\<lparr>site_queries := site_queries e + 1,
        cache := (cache e)(cache_key \<mapsto>
          (compute_site_root_paths i18n tr (Site_objects e), 3600))\<rparr>)"
  using assms by (simp add: get_site_root_paths_def Let_def cache_set_def)

lemma get_site_root_paths_hit:
  assumes "cache_get (cache e) cache_key = Some rs" "\<not> cache_unusable (Some rs)"
  shows "get_site_root_paths i18n tr e = (rs, e)"
  using assms by (simp add: get_site_root_paths_def Let_def)

text \<open>
  Claim C8. When the value cached under the key holds a record of the old shape (a
  tuple of three fields), \<^verbatim>\<open>get_site_root_paths\<close> computes the entries again from
  the rows of the table (one query more), stores them under the key
  \<^verbatim>\<open>wagtail_site_root_paths\<close> with a timeout of 3600 seconds, and returns them; what
  it returns is not the cached value, and holds records of four fields only.
\<close>

theorem legacy_cache_recomputed:
  assumes "cache_get (cache e) cache_key = Some cached"
    and "\<exists>r \<in> set cached. len_record r = 3"
  shows "get_site_root_paths i18n tr e =
     (compute_site_root_paths i18n tr (Site_objects e),
      e\<lparr>site_queries := site_queries e + 1,
        cache := (cache e)(''wagtail_site_root_paths'' \<mapsto>
          (compute_site_root_paths i18n tr (Site_objects e), 3600))\<rparr>)
    \<and> compute_site_root_paths i18n tr (Site_objects e) =
        concat (map (site_entries i18n tr) (order_by root_paths_order (Site_objects e)))
    \<and> fst (get_site_root_paths i18n tr e) \<noteq> cached
    \<and> (\<forall>r \<in> set (fst (get_site_root_paths i18n tr e)). len_record r = 4)"
proof -
  have u: "cache_unusable (cache_get (cache e) cache_key)"
    using assms by (simp add: cache_unusable_def list_ex_iff)
  note r = get_site_root_paths_recompute [OF u, of i18n tr]
  have four: "\<forall>r \<in> set (compute_site_root_paths i18n tr (Site_objects e)). len_record r = 4"
    using compute_site_root_paths_len by blast
  have "compute_site_root_paths i18n tr (Site_objects e) \<noteq> cached"
    using four assms(2) by fastforce
  with r four show ?thesis
    by (simp add: cache_key_def compute_site_root_paths_concat)
qed

theorem legacy_cache_recomputed_witness:
  "cache_get [cache_key \<mapsto> ([LegacySiteRootPath (Some 1) ''/home/'' ''http://old.com''], 3600)]
       cache_key
     = Some [LegacySiteRootPath (Some 1) ''/home/'' ''http://old.com'']
   \<and> (\<exists>r \<in> set [LegacySiteRootPath (Some 1) ''/home/'' ''http://old.com''].
         len_record r = 3)
   \<and> fst (get_site_root_paths False (\<lambda>p. [p])
        \<lparr>Site_objects = [ex_site_a], site_queries = 0,
         cache = [cache_key \<mapsto>
           ([LegacySiteRootPath (Some 1) ''/home/'' ''http://old.com''], 3600)]\<rparr>)
     = [SiteRootPath (Some 1) ''/home/'' ''http://example.com'' ''en'']"
proof -
  let ?old = "[LegacySiteRootPath (Some 1) ''/home/'' ''http://old.com'']"
  let ?e = "\<lparr>Site_objects = [ex_site_a], site_queries = 0,
         cache = [cache_key \<mapsto> (?old, 3600)]\<rparr>"
  have h1: "cache_get (cache ?e) cache_key = Some ?old"
    by (simp add: cache_get_def)
  have h2: "\<exists>r \<in> set ?old. len_record r = 3"
    by simp
  have "fst (get_site_root_paths False (\<lambda>p. [p]) ?e)
          = concat (map (site_entries False (\<lambda>p. [p])) (order_by root_paths_order [ex_site_a]))"
    using legacy_cache_recomputed [OF h1 h2, of False "\<lambda>p. [p]"] by simp
  also have "\<dots> = [SiteRootPath (Some 1) ''/home/'' ''http://example.com'' ''en'']"
    by (simp add: order_by_def site_entries_def root_url_def ex_site_a_def ex_home_def)
  finally show ?thesis
    using h1 h2 by simp
qed

lemma root_paths_order_total: "root_paths_order a b \<or> root_paths_order b a"
  unfolding root_paths_order_def by (cases "is_default_site a"; cases "is_default_site b") auto

lemma root_paths_order_trans:
  assumes "root_paths_order a b" "root_paths_order b c"
  shows "root_paths_order a c"
proof -
  consider "url_path (root_page b) < url_path (root_page a)"
    | "url_path (root_page a) = url_path (root_page b)" "is_default_site b < is_default_site a"
    | "url_path (root_page a) = url_path (root_page b)" "is_default_site a = is_default_site b"
      "hostname a \<le> hostname b"
    using assms(1) unfolding root_paths_order_def by blast
  then show ?thesis
  proof cases
    case 1
    then show ?thesis
      using assms(2) unfolding root_paths_order_def by auto
  next
    case 2
    then show ?thesis
      using assms(2) unfolding root_paths_order_def by auto
  next
    case 3
    then show ?thesis
      using assms(2) unfolding root_paths_order_def by auto
  qed
qed

lemma mset_insort_by: "mset (insort_by le x xs) = add_mset x (mset xs)"
  by (induction xs) simp_all

lemma set_insort_by: "set (insort_by le x xs) = insert x (set xs)"
  by (metis mset_insort_by set_mset_add_mset_insert set_mset_mset)

lemma sorted_insort_by:
  assumes total: "\<And>a b. le a b \<or> le b a"
    and trans: "\<And>a b c. le a b \<Longrightarrow> le b c \<Longrightarrow> le a c"
  shows "sorted_wrt le xs \<Longrightarrow> sorted_wrt le (insort_by le x xs)"
proof (induction xs)
  case Nil
  then show ?case by simp
next
  case (Cons y ys)
  show ?case
  proof (cases "le x y")
    case True
    then have "\<forall>z \<in> set ys. le x z"
      using Cons.prems trans by auto
    with True Cons.prems show ?thesis by simp
  next
    case False
    then have "le y x" using total by blast
    with False Cons show ?thesis
      by (auto simp: set_insort_by)
  qed
qed

lemma mset_order_by: "mset (order_by le xs) = mset xs"
  by (induction xs) (simp_all add: order_by_def mset_insort_by)

lemma sorted_order_by:
  assumes "\<And>a b. le a b \<or> le b a" and "\<And>a b c. le a b \<Longrightarrow> le b c \<Longrightarrow> le a c"
  shows "sorted_wrt le (order_by le xs)"
proof (induction xs)
  case Nil
  then show ?case by (simp add: order_by_def)
next
  case (Cons x xs)
  have "order_by le (x # xs) = insort_by le x (order_by le xs)"
    by (simp add: order_by_def)
  with Cons show ?case
    using sorted_insort_by [of le, OF assms] by simp
qed

lemma sorted_root_paths_order:
  "sorted_wrt root_paths_order (order_by root_paths_order tbl)"
  using root_paths_order_total root_paths_order_trans
  by (rule sorted_order_by)

lemma sorted_wrt_url_path:
  "sorted_wrt root_paths_order ss \<Longrightarrow>
     sorted_wrt (\<lambda>a b. root_path b \<le> root_path a) (concat (map (site_entries False tr) ss))"
proof (induction ss)
  case Nil
  then show ?case by simp
next
  case (Cons s ss)
  have "\<forall>t \<in> set ss. url_path (root_page t) \<le> url_path (root_page s)"
    using Cons.prems by (auto simp: root_paths_order_def)
  with Cons show ?case
    by (auto simp: site_entries_def)
qed

lemma site_ids_no_i18n:
  "map site_id (concat (map (site_entries False tr) ss)) = map pk ss"
  by (induction ss) (simp_all add: site_entries_def)

text \<open>
  The sites are taken in the order of the three keys: the root page paths descend;
  among equal paths a default site comes before the others; among equal paths and
  equal flags the hostnames ascend.
\<close>

lemma order_by_root_paths_keys:
  "sorted_wrt
     (\<lambda>a b. url_path (root_page b) \<le> url_path (root_page a)
        \<and> (url_path (root_page a) = url_path (root_page b) \<longrightarrow>
             (is_default_site b \<longrightarrow> is_default_site a)
             \<and> (is_default_site a = is_default_site b \<longrightarrow> hostname a \<le> hostname b)))
     (order_by root_paths_order tbl)"
proof (rule sorted_wrt_mono_rel [OF _ sorted_root_paths_order])
  fix a b
  assume "root_paths_order a b"
  then show "url_path (root_page b) \<le> url_path (root_page a)
      \<and> (url_path (root_page a) = url_path (root_page b) \<longrightarrow>
           (is_default_site b \<longrightarrow> is_default_site a)
           \<and> (is_default_site a = is_default_site b \<longrightarrow> hostname a \<le> hostname b))"
    unfolding root_paths_order_def by auto
qed

text \<open>
  Without internationalisation there is one entry for each site, in that order, so
  the root paths of the returned entries descend.
\<close>

lemma root_paths_descend_without_i18n:
  assumes "cache_unusable (cache_get (cache e) cache_key)"
  shows "map site_id (fst (get_site_root_paths False tr e)) =
           map pk (order_by root_paths_order (Site_objects e))
       \<and> sorted_wrt (\<lambda>a b. root_path b \<le> root_path a) (fst (get_site_root_paths False tr e))"
  using get_site_root_paths_recompute [OF assms, of False tr]
    site_ids_no_i18n [of tr "order_by root_paths_order (Site_objects e)"]
    sorted_wrt_url_path [OF sorted_root_paths_order, of tr "Site_objects e"]
  by (simp add: compute_site_root_paths_concat)

text \<open>
  Claim C7. The claim holds without internationalisation and fails with it. Site 1
  has the root page \<^verbatim>\<open>/home/\<close>, translated as \<^verbatim>\<open>/home-fr/\<close>; site 4 has the
  root page \<^verbatim>\<open>/home-fr/blog/\<close>. With internationalisation the entries returned
  are \<^verbatim>\<open>/home/\<close>, \<^verbatim>\<open>/home-fr/\<close>, \<^verbatim>\<open>/home-fr/blog/\<close>: the root paths do not
  descend, and \<^verbatim>\<open>/home-fr/\<close> of site 1 stands before the more specific
  \<^verbatim>\<open>/home-fr/blog/\<close> of site 4. Without internationalisation the same table gives
  \<^verbatim>\<open>/home/\<close>, \<^verbatim>\<open>/home-fr/blog/\<close>, which descend.
\<close>

theorem root_paths_i18n_not_descending:
  "fst (get_site_root_paths True ex_translations
      \<lparr>Site_objects = [ex_site_blog, ex_site_a], site_queries = 0, cache = Map.empty\<rparr>)
     = [SiteRootPath (Some 1) ''/home/'' ''http://example.com'' ''en'',
        SiteRootPath (Some 1) ''/home-fr/'' ''http://example.com'' ''fr'',
        SiteRootPath (Some 4) ''/home-fr/blog/'' ''http://blog.example.com'' ''fr'']
   \<and> \<not> sorted_wrt (\<lambda>a b. root_path b \<le> root_path a)
        (fst (get_site_root_paths True ex_translations
          \<lparr>Site_objects = [ex_site_blog, ex_site_a], site_queries = 0,
           cache = Map.empty\<rparr>))
   \<and> fst (get_site_root_paths False ex_translations
      \<lparr>Site_objects = [ex_site_blog, ex_site_a], site_queries = 0, cache = Map.empty\<rparr>)
     = [SiteRootPath (Some 1) ''/home/'' ''http://example.com'' ''en'',
        SiteRootPath (Some 4) ''/home-fr/blog/'' ''http://blog.example.com'' ''fr'']"
proof -
  let ?e = "\<lparr>Site_objects = [ex_site_blog, ex_site_a], site_queries = 0,
    cache = Map.empty\<rparr>"
  have u: "cache_unusable (cache_get (cache ?e) cache_key)"
    by (simp add: cache_unusable_def cache_get_def)
  have o: "order_by root_paths_order [ex_site_blog, ex_site_a] = [ex_site_a, ex_site_blog]"
    by (simp add: order_by_def root_paths_order_def ex_site_a_def ex_site_blog_def
        ex_home_def)
  have r: "root_page ex_site_a = ex_home" "pk ex_site_a = Some 1"
    "root_url ex_site_a = ''http://example.com''"
    "root_url ex_site_blog = ''http://blog.example.com''"
    "pk ex_site_blog = Some 4"
    "root_page ex_site_blog = \<lparr>url_path = ''/home-fr/blog/'', locale_language_code = ''fr''\<rparr>"
    by (simp_all add: ex_site_a_def ex_site_blog_def root_url_def)
  have t: "ex_translations ex_home = [ex_home, ex_home_fr]"
    "ex_translations \<lparr>url_path = ''/home-fr/blog/'', locale_language_code = ''fr''\<rparr>
       = [\<lparr>url_path = ''/home-fr/blog/'', locale_language_code = ''fr''\<rparr>]"
    by (simp_all add: ex_translations_def ex_home_def)
  have h: "url_path ex_home = ''/home/''" "locale_language_code ex_home = ''en''"
    "url_path ex_home_fr = ''/home-fr/''" "locale_language_code ex_home_fr = ''fr''"
    by (simp_all add: ex_home_def ex_home_fr_def)
  have i: "fst (get_site_root_paths True ex_translations ?e)
     = [SiteRootPath (Some 1) ''/home/'' ''http://example.com'' ''en'',
        SiteRootPath (Some 1) ''/home-fr/'' ''http://example.com'' ''fr'',
        SiteRootPath (Some 4) ''/home-fr/blog/'' ''http://blog.example.com'' ''fr'']"
    using get_site_root_paths_recompute [OF u, of True ex_translations]
    by (simp add: compute_site_root_paths_concat o site_entries_def r t h)
  have n: "fst (get_site_root_paths False ex_translations ?e)
     = [SiteRootPath (Some 1) ''/home/'' ''http://example.com'' ''en'',
        SiteRootPath (Some 4) ''/home-fr/blog/'' ''http://blog.example.com'' ''fr'']"
    using get_site_root_paths_recompute [OF u, of False ex_translations]
    by (simp add: compute_site_root_paths_concat o site_entries_def r h)
  have "\<not> sorted_wrt (\<lambda>a b. root_path b \<le> root_path a)
        (fst (get_site_root_paths True ex_translations ?e))"
    unfolding i by simp
  with i n show ?thesis
    by simp
qed


lemma cache_get_delete: "cache_get (cache_delete c k) k = None"
  by (simp add: cache_get_def cache_delete_def)

lemma cache_unusable_None: "cache_unusable None"
  by (simp add: cache_unusable_def)

lemma mset_concat_map_cong:
  assumes "mset xs = mset ys"
  shows "mset (concat (map f xs)) = mset (concat (map f ys))"
proof -
  have "mset (concat (map f zs)) = \<Sum>\<^sub># (image_mset (\<lambda>z. mset (f z)) (mset zs))" for zs
    by (induction zs) simp_all
  then show ?thesis
    using assms by simp
qed

lemma compute_site_root_paths_rows:
  "mset (compute_site_root_paths i18n tr tbl) =
     mset (concat (map (\<lambda>site.
       if i18n
       then map (\<lambda>rp. SiteRootPath (pk site) (url_path rp) (root_url site)
                   (locale_language_code rp)) (tr (root_page site))
       else [SiteRootPath (pk site) (url_path (root_page site)) (root_url site)
               (locale_language_code (root_page site))]) tbl))"
proof -
  have "mset (compute_site_root_paths i18n tr tbl) =
      mset (concat (map (site_entries i18n tr) tbl))"
    unfolding compute_site_root_paths_concat
    by (rule mset_concat_map_cong) (rule mset_order_by)
  also have "site_entries i18n tr = (\<lambda>site.
       if i18n
       then map (\<lambda>rp. SiteRootPath (pk site) (url_path rp) (root_url site)
                   (locale_language_code rp)) (tr (root_page site))
       else [SiteRootPath (pk site) (url_path (root_page site)) (root_url site)
               (locale_language_code (root_page site))])"
    by (rule ext) (simp add: site_entries_def)
  finally show ?thesis .
qed

lemma compute_site_root_paths_site_id:
  assumes "r \<in> set (compute_site_root_paths i18n tr tbl)"
  shows "\<exists>s \<in> set tbl. site_id r = pk s"
proof -
  from assms obtain s where s: "s \<in> set (order_by root_paths_order tbl)"
    "r \<in> set (site_entries i18n tr s)"
    unfolding compute_site_root_paths_concat by auto
  from s(1) have "s \<in> set tbl"
    by (metis mset_order_by set_mset_mset)
  moreover from s(2) have "site_id r = pk s"
    by (auto simp: site_entries_def split: if_splits)
  ultimately show ?thesis by blast
qed

lemma compute_site_root_paths_row:
  assumes "s \<in> set tbl"
  shows "SiteRootPath (pk s) (url_path (root_page s)) (root_url s)
           (locale_language_code (root_page s))
         \<in> set (compute_site_root_paths False tr tbl)"
proof -
  from assms have "s \<in> set (order_by root_paths_order tbl)"
    by (metis mset_order_by set_mset_mset)
  then show ?thesis
    unfolding compute_site_root_paths_concat by (auto simp: site_entries_def)
qed

lemma saved_row:
  "(case pk s of None \<Rightarrow> s\<lparr>pk := Some (fresh_pk (Site_objects e))\<rparr> | Some k \<Rightarrow> s)
     \<in> set (Site_objects (save_site s e))"
proof (cases "pk s")
  case None
  then show ?thesis by (simp add: save_site_def)
next
  case (Some k)
  show ?thesis
  proof (cases "list_ex (\<lambda>r. pk r = Some k) (Site_objects e)")
    case True
    then obtain r where "r \<in> set (Site_objects e)" "pk r = Some k"
      by (auto simp: list_ex_iff)
    then have "s \<in> (\<lambda>r. if pk r = Some k then s else r) ` set (Site_objects e)"
      by force
    with Some True show ?thesis by (simp add: save_site_def)
  next
    case False
    with Some show ?thesis by (simp add: save_site_def)
  qed
qed

text \<open>
  Claim C3. Let \<open>e'\<close> be the environment after a site \<open>s\<close> is saved (created or
  updated) or deleted. Nothing is cached under \<^verbatim>\<open>wagtail_site_root_paths\<close> in
  \<open>e'\<close>, whatever was cached before. The next call of \<^verbatim>\<open>get_site_root_paths\<close>
  queries the table once more, and returns and caches the entries of the rows of \<open>e'\<close>:
  for each row its \<^verbatim>\<open>SiteRootPath\<close> (one for each translation of its root page with
  internationalisation). So after a delete no entry carries the primary key of \<open>s\<close>,
  and after a save without internationalisation the entry of \<open>s\<close> as saved is there.
\<close>

theorem mutation_evicts_root_paths:
  assumes "e' = save_site s e \<or> e' = delete_site s e"
  shows "cache_get (cache e') ''wagtail_site_root_paths'' = None
   \<and> site_queries (snd (get_site_root_paths i18n tr e')) = site_queries e + 1
   \<and> cache_get (cache (snd (get_site_root_paths i18n tr e'))) ''wagtail_site_root_paths''
       = Some (fst (get_site_root_paths i18n tr e'))
   \<and> mset (fst (get_site_root_paths i18n tr e')) =
       mset (concat (map (\<lambda>site.
         if i18n
         then map (\<lambda>rp. SiteRootPath (pk site) (url_path rp) (root_url site)
                     (locale_language_code rp)) (tr (root_page site))
         else [SiteRootPath (pk site) (url_path (root_page site)) (root_url site)
                 (locale_language_code (root_page site))]) (Site_objects e')))
   \<and> (e' = delete_site s e \<longrightarrow>
        (\<forall>r \<in> set (fst (get_site_root_paths i18n tr e')). site_id r \<noteq> pk s))
   \<and> (e' = save_site s e \<and> \<not> i18n \<longrightarrow>
        SiteRootPath
          (case pk s of None \<Rightarrow> Some (fresh_pk (Site_objects e)) | Some k \<Rightarrow> Some k)
          (url_path (root_page s)) (root_url s) (locale_language_code (root_page s))
        \<in> set (fst (get_site_root_paths i18n tr e')))"
proof -
  have none: "cache_get (cache e') cache_key = None"
    using assms by (auto simp: save_site_def delete_site_def cache_get_delete)
  have q: "site_queries e' = site_queries e"
    using assms by (auto simp: save_site_def delete_site_def)
  have u: "cache_unusable (cache_get (cache e') cache_key)"
    by (simp only: none cache_unusable_None)
  note r = get_site_root_paths_recompute [OF u, of i18n tr]
  have res: "fst (get_site_root_paths i18n tr e') =
      compute_site_root_paths i18n tr (Site_objects e')"
    using r by simp
  have del: "site_id x \<noteq> pk s"
    if "e' = delete_site s e" "x \<in> set (fst (get_site_root_paths i18n tr e'))" for x
  proof -
    from that(2) obtain t where "t \<in> set (Site_objects e')" "site_id x = pk t"
      unfolding res using compute_site_root_paths_site_id by blast
    with that(1) show ?thesis
      by (auto simp: delete_site_def)
  qed
  have sav: "SiteRootPath
      (case pk s of None \<Rightarrow> Some (fresh_pk (Site_objects e)) | Some k \<Rightarrow> Some k)
      (url_path (root_page s)) (root_url s) (locale_language_code (root_page s))
      \<in> set (fst (get_site_root_paths i18n tr e'))"
    if "e' = save_site s e" "\<not> i18n"
  proof -
    let ?row = "case pk s of None \<Rightarrow> s\<lparr>pk := Some (fresh_pk (Site_objects e))\<rparr>
      | Some k \<Rightarrow> s"
    have "?row \<in> set (Site_objects e')"
      unfolding that(1) by (rule saved_row)
    then have "SiteRootPath (pk ?row) (url_path (root_page ?row)) (root_url ?row)
        (locale_language_code (root_page ?row))
        \<in> set (compute_site_root_paths False tr (Site_objects e'))"
      by (rule compute_site_root_paths_row)
    moreover have "pk ?row =
        (case pk s of None \<Rightarrow> Some (fresh_pk (Site_objects e)) | Some k \<Rightarrow> Some k)"
      "root_page ?row = root_page s" "root_url ?row = root_url s"
      by (simp_all add: root_url_def split: option.splits)
    ultimately show ?thesis
      using that(2) res by simp
  qed
  have "cache_get (cache e') ''wagtail_site_root_paths'' = None"
    using none by (simp add: cache_key_def)
  moreover have "site_queries (snd (get_site_root_paths i18n tr e')) = site_queries e + 1"
    using r q by simp
  moreover have "cache_get (cache (snd (get_site_root_paths i18n tr e')))
      ''wagtail_site_root_paths'' = Some (fst (get_site_root_paths i18n tr e'))"
    using r by (simp add: cache_get_def cache_key_def)
  moreover note compute_site_root_paths_rows [of i18n tr "Site_objects e'", folded res]
  ultimately show ?thesis
    using del sav by blast
qed

text \<open>
  In \<open>ex_env\<close> the cache serves the entries of both rows. After the first site is saved
  under another hostname the call returns the entry with the new hostname; after it
  is deleted the call returns the entry of the other site only.
\<close>

theorem mutation_evicts_root_paths_witness:
  "fst (get_site_root_paths False ex_translations ex_env)
     = [SiteRootPath (Some 3) ''/home/'' ''https://other.com'' ''en'',
        SiteRootPath (Some 1) ''/home/'' ''http://example.com'' ''en'']
   \<and> site_queries (snd (get_site_root_paths False ex_translations ex_env)) = 1
   \<and> mset (fst (get_site_root_paths False ex_translations
        (save_site (ex_site_a\<lparr>hostname := ''renamed.org''\<rparr>) ex_env)))
     = {#SiteRootPath (Some 1) ''/home/'' ''http://renamed.org'' ''en'',
         SiteRootPath (Some 3) ''/home/'' ''https://other.com'' ''en''#}
   \<and> site_queries (snd (get_site_root_paths False ex_translations
        (save_site (ex_site_a\<lparr>hostname := ''renamed.org''\<rparr>) ex_env))) = 2
   \<and> mset (fst (get_site_root_paths False ex_translations (delete_site ex_site_a ex_env)))
     = {#SiteRootPath (Some 3) ''/home/'' ''https://other.com'' ''en''#}"
proof -
  let ?s = "ex_site_a\<lparr>hostname := ''renamed.org''\<rparr>"
  have hit: "get_site_root_paths False ex_translations ex_env
     = ([SiteRootPath (Some 3) ''/home/'' ''https://other.com'' ''en'',
         SiteRootPath (Some 1) ''/home/'' ''http://example.com'' ''en''], ex_env)"
    by (rule get_site_root_paths_hit)
      (simp_all add: ex_env_def cache_get_def cache_unusable_def)
  have rows: "Site_objects (save_site ?s ex_env) = [?s, ex_site_d]"
    "Site_objects (delete_site ex_site_a ex_env) = [ex_site_d]"
    by (simp_all add: save_site_def delete_site_def ex_env_def ex_site_a_def ex_site_d_def)
  have f: "pk ?s = Some 1" "root_page ?s = ex_home" "root_url ?s = ''http://renamed.org''"
    "pk ex_site_d = Some 3" "root_page ex_site_d = ex_home"
    "root_url ex_site_d = ''https://other.com''"
    "url_path ex_home = ''/home/''" "locale_language_code ex_home = ''en''"
    "site_queries ex_env = 1"
    by (simp_all add: ex_site_a_def ex_site_d_def ex_home_def root_url_def ex_env_def)
  have sv: "mset (fst (get_site_root_paths False ex_translations (save_site ?s ex_env)))
      = {#SiteRootPath (Some 1) ''/home/'' ''http://renamed.org'' ''en'',
          SiteRootPath (Some 3) ''/home/'' ''https://other.com'' ''en''#}"
    "site_queries (snd (get_site_root_paths False ex_translations (save_site ?s ex_env))) = 2"
    using mutation_evicts_root_paths
      [of "save_site ?s ex_env" ?s ex_env False ex_translations]
    by (simp_all add: rows f)
  have dl: "mset (fst (get_site_root_paths False ex_translations
        (delete_site ex_site_a ex_env)))
      = {#SiteRootPath (Some 3) ''/home/'' ''https://other.com'' ''en''#}"
    using mutation_evicts_root_paths
      [of "delete_site ex_site_a ex_env" ex_site_a ex_env False ex_translations]
    by (simp add: rows f)
  show ?thesis
    using hit sv dl f(9) by simp
qed

subsection \<open>Default-site validation\<close>

lemma objects_get_default_single:
  "filter is_default_site tbl = [d] \<Longrightarrow> objects_get_default tbl = Inr d"
  by (simp add: objects_get_default_def)

text \<open>
  Claim C5. Let the field validation of the base class pass and let \<open>d\<close> be the one
  site of the table that holds the default flag. Validating an instance that has the
  flag set and another primary key than \<open>d\<close> raises a \<^verbatim>\<open>ValidationError\<close> on
  \<^verbatim>\<open>is_default_site\<close> whose message starts with the hostname of \<open>d\<close>; validating
  an instance with the primary key of \<open>d\<close> raises nothing.
\<close>

theorem clean_fields_default_conflict:
  assumes "super_clean_fields self exclude = None"
    and "filter is_default_site tbl = [d]"
  shows "(is_default_site self \<and> pk self \<noteq> pk d \<longrightarrow>
            clean_fields super_clean_fields tbl self exclude =
              Inl (ValidationError [(''is_default_site'',
                [hostname d @ '' is already configured as the default site.''
                   @ '' You must unset that before you can save this site as default.''])]))
       \<and> (pk self = pk d \<longrightarrow> clean_fields super_clean_fields tbl self exclude = Inr ())"
  using assms objects_get_default_single [OF assms(2)]
  by (simp add: clean_fields_def default_site_message_def)

theorem clean_fields_default_conflict_witness:
  "filter is_default_site [ex_site_a, ex_site_b, ex_site_d] = [ex_site_d]
   \<and> is_default_site (ex_site_b\<lparr>is_default_site := True\<rparr>)
   \<and> pk (ex_site_b\<lparr>is_default_site := True\<rparr>) \<noteq> pk ex_site_d
   \<and> clean_fields (\<lambda>s x. None) [ex_site_a, ex_site_b, ex_site_d]
        (ex_site_b\<lparr>is_default_site := True\<rparr>) None =
       Inl (ValidationError [(''is_default_site'',
         [''other.com is already configured as the default site. You must unset that before you can save this site as default.''])])
   \<and> clean_fields (\<lambda>s x. None) [ex_site_a, ex_site_b, ex_site_d]
        (ex_site_d\<lparr>site_name := ''renamed''\<rparr>) None = Inr ()"
proof -
  have f: "filter is_default_site [ex_site_a, ex_site_b, ex_site_d] = [ex_site_d]"
    by (simp add: ex_site_a_def ex_site_b_def ex_site_d_def)
  have b: "is_default_site (ex_site_b\<lparr>is_default_site := True\<rparr>)"
    "pk (ex_site_b\<lparr>is_default_site := True\<rparr>) \<noteq> pk ex_site_d"
    by (simp_all add: ex_site_b_def ex_site_d_def)
  have d: "pk (ex_site_d\<lparr>site_name := ''renamed''\<rparr>) = pk ex_site_d"
    "hostname ex_site_d = ''other.com''"
    by (simp_all add: ex_site_d_def)
  have n: "(\<lambda>s x. None :: error option) s x = None" for s :: site and x :: "string list option"
    by simp
  show ?thesis
    using clean_fields_default_conflict [OF n f, of "ex_site_b\<lparr>is_default_site := True\<rparr>" None]
      clean_fields_default_conflict [OF n f, of "ex_site_d\<lparr>site_name := ''renamed''\<rparr>" None]
      f b d
    by simp
qed

subsection \<open>The site-user model setting\<close>

lemma get_site_user_model_absent:
  "get_site_user_model None installed = Inl (ImproperlyConfigured msg_configure)"
  by (simp add: get_site_user_model_def settings_SITE_USER_MODEL_def)

lemma get_site_user_model_shape:
  assumes "length (split_dot name) \<noteq> 2"
  shows "get_site_user_model (Some name) installed = Inl (ImproperlyConfigured msg_form)"
proof -
  have "apps_get_model installed name = Inl ValueError"
    using assms unfolding apps_get_model_def
    by (auto split: list.splits)
  then show ?thesis
    by (simp add: get_site_user_model_def settings_SITE_USER_MODEL_def)
qed

lemma get_site_user_model_not_installed:
  assumes "split_dot name = [app_label, model_name]" "installed app_label model_name = None"
  shows "get_site_user_model (Some name) installed =
     Inl (ImproperlyConfigured (msg_not_installed name))"
  using assms
  by (simp add: get_site_user_model_def settings_SITE_USER_MODEL_def apps_get_model_def)

text \<open>
  Claim C4, as the code has it. Importing the module raises nothing and leaves the
  global \<^verbatim>\<open>SiteUser\<close> unset, whatever the setting is. A setting that is absent, that
  does not split at its dots into exactly two parts, or that names a model which is not
  installed makes \<^verbatim>\<open>get_site_user_model\<close> raise \<^verbatim>\<open>ImproperlyConfigured\<close> with
  the message of that case; and while the global is unset, each call of
  \<^verbatim>\<open>AbstractSiteUser.find_for_request\<close> raises the error of
  \<^verbatim>\<open>get_site_user_model\<close> and leaves the global unset.
\<close>

theorem site_user_model_error_on_use:
  "import_module setting installed = Inr \<lparr>SiteUser = None\<rparr>
   \<and> (setting = None \<longrightarrow>
        get_site_user_model setting installed = Inl (ImproperlyConfigured msg_configure))
   \<and> (\<forall>name. setting = Some name \<and> length (split_dot name) \<noteq> 2 \<longrightarrow>
        get_site_user_model setting installed = Inl (ImproperlyConfigured msg_form))
   \<and> (\<forall>name app_label model_name.
        setting = Some name \<and> split_dot name = [app_label, model_name]
          \<and> installed app_label model_name = None \<longrightarrow>
        get_site_user_model setting installed =
          Inl (ImproperlyConfigured (msg_not_installed name)))
   \<and> (\<forall>err. get_site_user_model setting installed = Inl err \<longrightarrow>
        site_user_find_for_request setting installed body \<lparr>SiteUser = None\<rparr> rq =
          (Inl err, \<lparr>SiteUser = None\<rparr>))"
proof (intro conjI allI impI)
  show "import_module setting installed = Inr \<lparr>SiteUser = None\<rparr>"
    by (simp add: import_module_def)
next
  assume "setting = None"
  then show "get_site_user_model setting installed = Inl (ImproperlyConfigured msg_configure)"
    by (simp add: get_site_user_model_absent)
next
  fix name assume "setting = Some name \<and> length (split_dot name) \<noteq> 2"
  then show "get_site_user_model setting installed = Inl (ImproperlyConfigured msg_form)"
    by (simp add: get_site_user_model_shape)
next
  fix name app_label model_name
  assume "setting = Some name \<and> split_dot name = [app_label, model_name]
    \<and> installed app_label model_name = None"
  then show "get_site_user_model setting installed =
      Inl (ImproperlyConfigured (msg_not_installed name))"
    by (simp add: get_site_user_model_not_installed)
next
  fix err assume "get_site_user_model setting installed = Inl err"
  then show "site_user_find_for_request setting installed body \<lparr>SiteUser = None\<rparr> rq =
      (Inl err, \<lparr>SiteUser = None\<rparr>)"
    by (simp add: site_user_find_for_request_def)
qed

theorem site_user_model_error_on_use_witness:
  "length (split_dot ''siteusers'') \<noteq> 2
   \<and> split_dot ''sites.SiteUser'' = [''sites'', ''SiteUser'']
   \<and> get_site_user_model None (\<lambda>a m. None :: unit option)
       = Inl (ImproperlyConfigured msg_configure)
   \<and> get_site_user_model (Some ''siteusers'') (\<lambda>a m. None :: unit option)
       = Inl (ImproperlyConfigured msg_form)
   \<and> get_site_user_model (Some ''sites.SiteUser'') (\<lambda>a m. None :: unit option)
       = Inl (ImproperlyConfigured (msg_not_installed ''sites.SiteUser''))
   \<and> site_user_find_for_request (Some ''siteusers'') (\<lambda>a m. None :: unit option)
        (\<lambda>m rq. Inr ()) \<lparr>SiteUser = None\<rparr> ()
       = (Inl (ImproperlyConfigured msg_form), \<lparr>SiteUser = None\<rparr>)"
proof -
  have a: "length (split_dot ''siteusers'') \<noteq> 2"
    and b: "split_dot ''sites.SiteUser'' = [''sites'', ''SiteUser'']"
    by simp_all
  note t = site_user_model_error_on_use
    [where ?'a = unit and ?'b = unit and ?'c = unit]
  have 1: "get_site_user_model None (\<lambda>a m. None :: unit option)
       = Inl (ImproperlyConfigured msg_configure)"
    using t [of None "\<lambda>a m. None :: unit option" "\<lambda>m rq. Inr ()" "()"] by simp
  have 2: "get_site_user_model (Some ''siteusers'') (\<lambda>a m. None :: unit option)
       = Inl (ImproperlyConfigured msg_form)"
    using t [of "Some ''siteusers''" "\<lambda>a m. None :: unit option" "\<lambda>m rq. Inr ()" "()"] a
    by simp
  have 3: "get_site_user_model (Some ''sites.SiteUser'') (\<lambda>a m. None :: unit option)
       = Inl (ImproperlyConfigured (msg_not_installed ''sites.SiteUser''))"
    using t [of "Some ''sites.SiteUser''" "\<lambda>a m. None :: unit option" "\<lambda>m rq. Inr ()" "()"]
      b by simp
  have 4: "site_user_find_for_request (Some ''siteusers'') (\<lambda>a m. None :: unit option)
        (\<lambda>m rq. Inr ()) \<lparr>SiteUser = None\<rparr> ()
       = (Inl (ImproperlyConfigured msg_form), \<lparr>SiteUser = None\<rparr>)"
    using t [of "Some ''siteusers''" "\<lambda>a m. None :: unit option" "\<lambda>m rq. Inr ()" "()"] 2
    by simp
  show ?thesis
    using a b 1 2 3 4 by simp
qed

text \<open>
  The claim as stated fails: with the setting absent, importing the module raises
  nothing, and the configuration error appears at the first call of
  \<^verbatim>\<open>AbstractSiteUser.find_for_request\<close>.
\<close>

theorem site_user_model_startup_counterexample:
  "import_module None ex_installed = Inr \<lparr>SiteUser = None\<rparr>
   \<and> site_user_find_for_request None ex_installed ex_body \<lparr>SiteUser = None\<rparr> ()
       = (Inl (ImproperlyConfigured
            ''Please configure settings.SITE_USER_MODEL             that should subclass the AbstractSiteUser''),
          \<lparr>SiteUser = None\<rparr>)"
  by (simp add: import_module_def site_user_find_for_request_def get_site_user_model_def
      settings_SITE_USER_MODEL_def msg_configure_def)

subsection \<open>When the resolver finds no site\<close>

lemma not_found_cases:
  "get_site_for_hostname tbl h p = Inl DoesNotExist \<longleftrightarrow>
     sites_query tbl h p = []
     \<or> (length (sites_query tbl h p) \<noteq> 1 \<and> fst (sites_query tbl h p ! 0) = MATCH_HOSTNAME)"
proof (cases "sites_query tbl h p = []")
  case True
  then show ?thesis
    by (simp add: get_site_for_hostname_def)
next
  case False
  then obtain s where "sites_query tbl h p ! 0 = (match_annotation h p s, s)"
    by (rule sites_query_head)
  then have "fst (sites_query tbl h p ! 0) \<le> MATCH_HOSTNAME"
    by (simp add: match_annotation_le)
  then have "fst (sites_query tbl h p ! 0) = MATCH_HOSTNAME \<longleftrightarrow>
      fst (sites_query tbl h p ! 0) \<noteq> MATCH_HOSTNAME_PORT
      \<and> fst (sites_query tbl h p ! 0) \<noteq> MATCH_HOSTNAME_DEFAULT
      \<and> fst (sites_query tbl h p ! 0) \<noteq> MATCH_DEFAULT"
    unfolding MATCH_HOSTNAME_PORT_def MATCH_HOSTNAME_DEFAULT_def MATCH_DEFAULT_def
      MATCH_HOSTNAME_def by arith
  with False show ?thesis
    by (auto simp: get_site_for_hostname_def Let_def)
qed

lemma head_hostname_only:
  assumes "sites_query tbl h p \<noteq> []"
  shows "fst (sites_query tbl h p ! 0) = MATCH_HOSTNAME \<longleftrightarrow>
     (\<forall>s \<in> set tbl. \<not> is_default_site s) \<and> (\<forall>s \<in> set tbl. \<not> (hostname s = h \<and> port s = p))"
proof
  assume top: "fst (sites_query tbl h p ! 0) = MATCH_HOSTNAME"
  have "\<not> is_default_site s \<and> \<not> (hostname s = h \<and> port s = p)" if "s \<in> set tbl" for s
  proof (rule ccontr)
    assume "\<not> (\<not> is_default_site s \<and> \<not> (hostname s = h \<and> port s = p))"
    then have c: "is_default_site s \<or> (hostname s = h \<and> port s = p)" by blast
    then have "(match_annotation h p s, s) \<in> set (sites_query tbl h p)"
      unfolding sites_query_set using that by blast
    then have "MATCH_HOSTNAME \<le> match_annotation h p s"
      using sites_query_head_least top by fastforce
    then have "match_annotation h p s = MATCH_HOSTNAME"
      using match_annotation_le [of h p s] by simp
    with c show False
      by (simp add: match_annotation_cases(4))
  qed
  then show "(\<forall>s \<in> set tbl. \<not> is_default_site s)
      \<and> (\<forall>s \<in> set tbl. \<not> (hostname s = h \<and> port s = p))"
    by blast
next
  assume none: "(\<forall>s \<in> set tbl. \<not> is_default_site s)
      \<and> (\<forall>s \<in> set tbl. \<not> (hostname s = h \<and> port s = p))"
  from assms obtain s where s: "sites_query tbl h p ! 0 = (match_annotation h p s, s)"
    "s \<in> set tbl"
    by (rule sites_query_head)
  then have "match_annotation h p s = MATCH_HOSTNAME"
    using none by (simp add: match_annotation_cases(4))
  with s show "fst (sites_query tbl h p ! 0) = MATCH_HOSTNAME"
    by simp
qed

lemma candidates_without_default:
  assumes "\<forall>s \<in> set tbl. \<not> is_default_site s"
  shows "length (sites_query tbl h p) = length (filter (\<lambda>s. hostname s = h) tbl)"
proof -
  have "filter (\<lambda>s. hostname s = h \<or> is_default_site s) tbl
      = filter (\<lambda>s. hostname s = h) tbl"
    using assms by (intro filter_cong) auto
  then show ?thesis
    by (simp add: sites_query_length)
qed

text \<open>
  Claim C2, as the code has it. The resolver raises \<^verbatim>\<open>DoesNotExist\<close> exactly when
  no site is flagged default, no site has both the requested hostname and the
  requested port, and the number of sites with the requested hostname is not one:
  none at all, or two or more on other ports.
\<close>

theorem not_found_iff:
  "get_site_for_hostname tbl h p = Inl DoesNotExist \<longleftrightarrow>
     (\<forall>s \<in> set tbl. \<not> is_default_site s)
     \<and> (\<forall>s \<in> set tbl. \<not> (hostname s = h \<and> port s = p))
     \<and> length (filter (\<lambda>s. hostname s = h) tbl) \<noteq> 1"
proof (cases "sites_query tbl h p = []")
  case True
  then have none: "\<forall>s \<in> set tbl. hostname s \<noteq> h \<and> \<not> is_default_site s"
    by (simp add: sites_query_empty)
  then have "filter (\<lambda>s. hostname s = h) tbl = []"
    by (simp add: filter_empty_conv)
  with True none show ?thesis
    by (simp add: not_found_cases)
next
  case False
  show ?thesis
  proof (cases "(\<forall>s \<in> set tbl. \<not> is_default_site s)
      \<and> (\<forall>s \<in> set tbl. \<not> (hostname s = h \<and> port s = p))")
    case True
    then have "fst (sites_query tbl h p ! 0) = MATCH_HOSTNAME"
      using head_hostname_only [OF False] by simp
    moreover have "length (sites_query tbl h p) = length (filter (\<lambda>s. hostname s = h) tbl)"
      using True by (simp add: candidates_without_default)
    ultimately show ?thesis
      using True False by (simp add: not_found_cases)
  next
    case no: False
    then have "fst (sites_query tbl h p ! 0) \<noteq> MATCH_HOSTNAME"
      using head_hostname_only [OF False] by simp
    then have "get_site_for_hostname tbl h p \<noteq> Inl DoesNotExist"
      using False by (simp add: not_found_cases)
    with no show ?thesis
      by blast
  qed
qed

theorem not_found_iff_witness:
  "get_site_for_hostname [ex_site_a, ex_site_b] ''nowhere.org'' 80 = Inl DoesNotExist
   \<and> get_site_for_hostname [ex_site_a, ex_site_b, ex_site_d] ''nowhere.org'' 80
       \<noteq> Inl DoesNotExist
   \<and> get_site_for_hostname [ex_site_a] ''example.com'' 443 \<noteq> Inl DoesNotExist"
  using not_found_iff [of "[ex_site_a, ex_site_b]" "''nowhere.org''" 80]
    not_found_iff [of "[ex_site_a, ex_site_b, ex_site_d]" "''nowhere.org''" 80]
    not_found_iff [of "[ex_site_a]" "''example.com''" 443]
  by (simp add: ex_site_a_def ex_site_b_def ex_site_d_def)

text \<open>
  The claim as stated fails: two sites have the requested hostname, on ports 80 and
  8000; a request for that hostname on port 443 finds no site.
\<close>

theorem hostname_match_not_found_counterexample:
  "hostname ex_site_a = ''example.com''
   \<and> get_site_for_hostname [ex_site_a, ex_site_b] ''example.com'' 443 = Inl DoesNotExist"
  by (simp add: get_site_for_hostname_def sites_query_def match_annotation_def
      MATCH_HOSTNAME_PORT_def MATCH_HOSTNAME_DEFAULT_def MATCH_DEFAULT_def
      MATCH_HOSTNAME_def ex_site_a_def ex_site_b_def ex_home_def)

subsection \<open>The default site against hostname matches\<close>

lemma best_match_head:
  assumes "best_match tbl h p = Some m"
  shows "sites_query tbl h p \<noteq> [] \<and> fst (sites_query tbl h p ! 0) = m"
  using assms by (auto simp: best_match_def split: list.splits)

lemma tiebreak_setting:
  assumes one: "filter is_default_site tbl = [d]"
    and best: "best_match tbl h p = Some MATCH_DEFAULT"
  shows "sites_query tbl h p \<noteq> []"
    and "sites_query tbl h p ! 0 = (MATCH_DEFAULT, d)"
    and "hostname d \<noteq> h"
    and "mset (map snd (sites_query tbl h p)) =
           add_mset d (mset (filter (\<lambda>s. hostname s = h) tbl))"
proof -
  let ?q = "sites_query tbl h p"
  from best_match_head [OF best] have ne: "?q \<noteq> []" and top: "fst (?q ! 0) = MATCH_DEFAULT"
    by simp_all
  show "?q \<noteq> []" by (rule ne)
  have only: "s = d" if "s \<in> set tbl" "is_default_site s" for s
  proof -
    from that have "s \<in> set (filter is_default_site tbl)" by simp
    then show ?thesis unfolding one by simp
  qed
  from ne obtain s where s: "?q ! 0 = (match_annotation h p s, s)" "s \<in> set tbl"
    by (rule sites_query_head)
  with top have ann: "match_annotation h p s = MATCH_DEFAULT" by simp
  then have sd: "hostname s \<noteq> h \<and> is_default_site s"
    by (simp add: match_annotation_cases(3))
  with s(2) have "s = d" by (simp add: only)
  with s(1) ann sd show "?q ! 0 = (MATCH_DEFAULT, d)" and "hostname d \<noteq> h"
    by simp_all
  then have "\<forall>x \<in> set tbl. \<not> (hostname x = h \<and> is_default_site x)"
    using only by blast
  then have "mset (filter (\<lambda>s. hostname s = h \<or> is_default_site s) tbl)
      = mset (filter (\<lambda>s. hostname s = h) tbl) + mset (filter is_default_site tbl)"
    by (rule filter_disj_mset)
  then show "mset (map snd ?q) = add_mset d (mset (filter (\<lambda>s. hostname s = h) tbl))"
    unfolding sites_query_rows one by simp
qed

text \<open>
  Claim C1. Let \<open>d\<close> be the one default site of the table, and let the best-ranked
  candidate of the query carry the annotation \<open>MATCH_DEFAULT\<close>: the default site, with
  another hostname than the requested one. When exactly one site \<open>x\<close> has the
  requested hostname, the resolver returns \<open>x\<close>; when no site or more than one site
  has it, the resolver returns \<open>d\<close>.
\<close>

theorem default_tiebreak:
  assumes "filter is_default_site tbl = [d]"
    and "best_match tbl h p = Some MATCH_DEFAULT"
  shows "hostname d \<noteq> h
    \<and> (\<forall>x. filter (\<lambda>s. hostname s = h) tbl = [x] \<longrightarrow>
          get_site_for_hostname tbl h p = Inr x)
    \<and> (length (filter (\<lambda>s. hostname s = h) tbl) \<noteq> 1 \<longrightarrow>
          get_site_for_hostname tbl h p = Inr d)"
proof (intro conjI allI impI)
  let ?q = "sites_query tbl h p"
  note st = tiebreak_setting [OF assms]
  show "hostname d \<noteq> h" by (rule st(3))
  have len: "length ?q = Suc (length (filter (\<lambda>s. hostname s = h) tbl))"
  proof -
    have "size (mset (map snd ?q)) =
        size (add_mset d (mset (filter (\<lambda>s. hostname s = h) tbl)))"
      by (simp only: st(4))
    then show ?thesis
      by (simp only: size_mset size_add_mset length_map)
  qed
  have top: "fst (?q ! 0) = MATCH_DEFAULT" "snd (?q ! 0) = d"
    using st(2) by simp_all
  have not01: "fst (?q ! 0) \<notin> {MATCH_HOSTNAME_PORT, MATCH_HOSTNAME_DEFAULT}"
    unfolding top(1) by (simp add: MATCH_HOSTNAME_PORT_def MATCH_HOSTNAME_DEFAULT_def
        MATCH_DEFAULT_def)
  {
    fix x assume x: "filter (\<lambda>s. hostname s = h) tbl = [x]"
    with len have l2: "length ?q = 2" by simp
    then obtain a b where ab: "?q = [a, b]"
      by (metis (no_types, lifting) One_nat_def Suc_1 length_0_conv length_Suc_conv)
    with top(2) have "snd a = d" by simp
    moreover have "mset (map snd ?q) = {#d, x#}"
      unfolding st(4) x by simp
    ultimately have "snd b = x"
      using ab by simp
    then have "snd (?q ! 1) = x"
      using ab by simp
    then show "get_site_for_hostname tbl h p = Inr x"
      using st(1) l2 not01 top(1) by (simp add: get_site_for_hostname_def Let_def)
  }
  {
    assume "length (filter (\<lambda>s. hostname s = h) tbl) \<noteq> 1"
    with len have "length ?q \<noteq> 2" by simp
    then show "get_site_for_hostname tbl h p = Inr d"
      using st(1) top by (simp add: get_site_for_hostname_def Let_def)
  }
qed

theorem default_tiebreak_witness:
  "filter is_default_site [ex_site_d, ex_site_a] = [ex_site_d]
   \<and> best_match [ex_site_d, ex_site_a] ''example.com'' 443 = Some MATCH_DEFAULT
   \<and> get_site_for_hostname [ex_site_d, ex_site_a] ''example.com'' 443 = Inr ex_site_a
   \<and> filter is_default_site [ex_site_a, ex_site_b, ex_site_d] = [ex_site_d]
   \<and> best_match [ex_site_a, ex_site_b, ex_site_d] ''example.com'' 443 = Some MATCH_DEFAULT
   \<and> get_site_for_hostname [ex_site_a, ex_site_b, ex_site_d] ''example.com'' 443
       = Inr ex_site_d
   \<and> best_match [ex_site_a, ex_site_b, ex_site_d] ''nowhere.org'' 80 = Some MATCH_DEFAULT
   \<and> get_site_for_hostname [ex_site_a, ex_site_b, ex_site_d] ''nowhere.org'' 80
       = Inr ex_site_d"
proof -
  have f1: "filter is_default_site [ex_site_d, ex_site_a] = [ex_site_d]"
    and f2: "filter is_default_site [ex_site_a, ex_site_b, ex_site_d] = [ex_site_d]"
    by (simp_all add: ex_site_a_def ex_site_b_def ex_site_d_def)
  have b1: "best_match [ex_site_d, ex_site_a] ''example.com'' 443 = Some MATCH_DEFAULT"
    and b2: "best_match [ex_site_a, ex_site_b, ex_site_d] ''example.com'' 443
      = Some MATCH_DEFAULT"
    and b3: "best_match [ex_site_a, ex_site_b, ex_site_d] ''nowhere.org'' 80
      = Some MATCH_DEFAULT"
    by (simp_all add: best_match_def sites_query_def match_annotation_def
        MATCH_HOSTNAME_PORT_def MATCH_HOSTNAME_DEFAULT_def MATCH_DEFAULT_def
        MATCH_HOSTNAME_def ex_site_a_def ex_site_b_def ex_site_d_def ex_home_def)
  have h1: "filter (\<lambda>s. hostname s = ''example.com'') [ex_site_d, ex_site_a] = [ex_site_a]"
    and h2: "length (filter (\<lambda>s. hostname s = ''example.com'')
        [ex_site_a, ex_site_b, ex_site_d]) \<noteq> 1"
    and h3: "length (filter (\<lambda>s. hostname s = ''nowhere.org'')
        [ex_site_a, ex_site_b, ex_site_d]) \<noteq> 1"
    by (simp_all add: ex_site_a_def ex_site_b_def ex_site_d_def)
  have "get_site_for_hostname [ex_site_d, ex_site_a] ''example.com'' 443 = Inr ex_site_a"
    using default_tiebreak [OF f1 b1] h1 by blast
  moreover have "get_site_for_hostname [ex_site_a, ex_site_b, ex_site_d] ''example.com'' 443
      = Inr ex_site_d"
    using default_tiebreak [OF f2 b2] h2 by blast
  moreover have "get_site_for_hostname [ex_site_a, ex_site_b, ex_site_d] ''nowhere.org'' 80
      = Inr ex_site_d"
    using default_tiebreak [OF f2 b3] h3 by blast
  ultimately show ?thesis
    using f1 f2 b1 b2 b3 by blast
qed

end
